theory Spec2Isabelle
  imports Main "HOL-Library.AList" "HOL-Library.Char_ord" "HOL-Library.List_Lexorder"
    "HOL-Library.Log_Nat"
begin

section \<open>Data model of the budget book (src/src/App.tsx)\<close>

text \<open>
  The three top categories of the source are the string literals of the union type
  \<^verbatim>\<open>TopCategory\<close>: Spending is the literal for consumption, Savings the one for saving,
  Other the third one. Amounts and plans are JavaScript numbers holding whole currency
  units; they are modelled as unbounded integers (exact below \<open>2^53\<close>).
\<close>

datatype TopCategory = Spending | Savings | Other

record Tx =
  tx_id :: string
  tx_date :: string
  tx_top :: TopCategory
  tx_item :: string
  tx_amount :: int
  tx_memo :: "string option"

record BudgetItem =
  b_id :: string
  b_top :: TopCategory
  b_name :: string
  b_plan :: int

record Settings =
  startDay :: int
  startDayTakesEffectNextMonth :: bool

text \<open>
  \<^verbatim>\<open>budgets: Record<string, BudgetItem[]>\<close> is an association list in insertion order;
  a property read \<^verbatim>\<open>budgets[k]\<close> is \<open>map_of\<close>, a spread with one computed key is
  \<open>AList.update\<close> (an existing key keeps its place, a new key goes last).
\<close>

record AppState =
  budgets :: "(string \<times> BudgetItem list) list"
  txs :: "Tx list"
  settings :: Settings

section \<open>Dates\<close>

text \<open>
  A JavaScript \<^verbatim>\<open>Date\<close> is represented by its local calendar fields, named after the
  getters that read them, and the milliseconds elapsed since local midnight. Month
  indices run from 0 to 11. Time zones, daylight saving shifts and the limit of
  \<open>\<plusminus>8.64e15\<close> ms on time values are outside the model.
\<close>

record JSDate =
  getFullYear :: int
  getMonth :: int
  getDate :: int
  timeOfDay :: int

definition isLeapYear :: "int \<Rightarrow> bool" where
  "isLeapYear y =
     (if y mod 400 = 0 then True else if y mod 100 = 0 then False else y mod 4 = 0)"

text \<open>Number of days of month index \<open>m\<close> (0 = January) in year \<open>y\<close>.\<close>

definition monthLength :: "int \<Rightarrow> int \<Rightarrow> int" where
  "monthLength y m =
     (if m = 1 then (if isLeapYear y then 29 else 28)
      else if m = 3 \<or> m = 5 \<or> m = 8 \<or> m = 10 then 30
      else 31)"

text \<open>
  \<^verbatim>\<open>MakeDay(year, month, date)\<close> of the language definition accepts a day of month outside
  the month and counts on from the first of the month; \<open>carryDay\<close> brings year, month index
  (already in 0..11) and day back to calendar fields by walking over whole months.
\<close>

function carryDay :: "int \<Rightarrow> int \<Rightarrow> int \<Rightarrow> int \<times> int \<times> int" where
  "carryDay y m d =
     (if d < 1 then
        (if m = 0 then carryDay (y - 1) 11 (d + monthLength (y - 1) 11)
         else carryDay y (m - 1) (d + monthLength y (m - 1)))
      else if monthLength y m < d then
        (if m = 11 then carryDay (y + 1) 0 (d - monthLength y m)
         else carryDay y (m + 1) (d - monthLength y m))
      else (y, m, d))"
  by pat_completeness auto
termination
  by (relation "measure (\<lambda>(y, m, d). if d < 1 then nat (33 - d) else nat d)")
     (auto simp: monthLength_def)

declare carryDay.simps [simp del]

definition MakeDay :: "int \<Rightarrow> int \<Rightarrow> int \<Rightarrow> int \<times> int \<times> int" where
  "MakeDay y m d = carryDay (y + m div 12) (m mod 12) d"

text \<open>
  \<^verbatim>\<open>new Date(y, m, d)\<close>: a year from 0 to 99 means 1900 + y; the time is local midnight.
\<close>

definition newDate :: "int \<Rightarrow> int \<Rightarrow> int \<Rightarrow> JSDate" where
  "newDate y m d =
     (let yr = (if 0 \<le> y \<and> y \<le> 99 then 1900 + y else y);
          (y', m', d') = MakeDay yr m d
      in \<lparr>getFullYear = y', getMonth = m', getDate = d', timeOfDay = 0\<rparr>)"

definition setMonth :: "JSDate \<Rightarrow> int \<Rightarrow> JSDate" where
  "setMonth t m =
     (let (y', m', d') = MakeDay (getFullYear t) m (getDate t)
      in t\<lparr>getFullYear := y', getMonth := m', getDate := d'\<rparr>)"

definition setDate :: "JSDate \<Rightarrow> int \<Rightarrow> JSDate" where
  "setDate t d =
     (let (y', m', d') = MakeDay (getFullYear t) (getMonth t) d
      in t\<lparr>getFullYear := y', getMonth := m', getDate := d'\<rparr>)"

definition setHours :: "JSDate \<Rightarrow> int \<Rightarrow> int \<Rightarrow> int \<Rightarrow> int \<Rightarrow> JSDate" where
  "setHours t h mi s ms = t\<lparr>timeOfDay := ((h * 60 + mi) * 60 + s) * 1000 + ms\<rparr>"

text \<open>
  The relational operators compare two dates by their time values; on calendar fields
  this is the lexicographic order of year, month, day and time of day.
\<close>

definition dateLe :: "JSDate \<Rightarrow> JSDate \<Rightarrow> bool" where
  "dateLe a b =
     (getFullYear a < getFullYear b
      \<or> (getFullYear a = getFullYear b
          \<and> (getMonth a < getMonth b
              \<or> (getMonth a = getMonth b
                  \<and> (getDate a < getDate b
                      \<or> (getDate a = getDate b \<and> timeOfDay a \<le> timeOfDay b))))))"

subsection \<open>The period of a budget month\<close>

text \<open>
  \<^verbatim>\<open>daysInMonth(y, m)\<close> with \<open>m\<close> from 1 to 12 (the calendar helper of the richer variant;
  \<open>startEndOfMonth\<close> computes its \<^verbatim>\<open>lastDay\<close> with the same expression).
\<close>

definition daysInMonth :: "int \<Rightarrow> int \<Rightarrow> int" where
  "daysInMonth y m = getDate (newDate y m 0)"

record Period =
  period_start :: JSDate
  period_end :: JSDate

text \<open>
  The body of \<^verbatim>\<open>startEndOfMonth\<close> after the month key has been split into its two
  numbers \<open>y\<close> and \<open>m\<close>.
\<close>

definition startEndOfMonthYM :: "int \<Rightarrow> int \<Rightarrow> int \<Rightarrow> Period" where
  "startEndOfMonthYM y m startDay' =
     (let lastDay = getDate (newDate y m 0);
          startD = min startDay' lastDay;
          start = newDate y (m - 1) startD;
          end0 = newDate y (m - 1) startD;
          end1 = setMonth end0 (getMonth end0 + 1);
          end2 = setDate end1 (getDate end1 - 1);
          end3 = setHours end2 23 59 59 999
      in \<lparr>period_start = start, period_end = end3\<rparr>)"


subsection \<open>Reading month keys and transaction dates\<close>






section \<open>Numbers of the execution rate\<close>









section \<open>The report of a month\<close>



definition monthBudgets :: "(string \<times> BudgetItem list) list \<Rightarrow> string \<Rightarrow> BudgetItem list" where
  "monthBudgets bs month = (case map_of bs month of None \<Rightarrow> [] | Some l \<Rightarrow> l)"














subsection \<open>The budget view\<close>






section \<open>Operations on the state\<close>

text \<open>
  \<^verbatim>\<open>uid()\<close> draws a random identifier. Every operation that calls it takes the drawn
  identifiers as an argument: a single string, or the sequence of the successive draws.
\<close>

definition addTx :: "string \<Rightarrow> Tx \<Rightarrow> AppState \<Rightarrow> AppState" where
  "addTx u tx prev = prev\<lparr>txs := tx\<lparr>tx_id := u\<rparr> # txs prev\<rparr>"

definition removeTx :: "string \<Rightarrow> AppState \<Rightarrow> AppState" where
  "removeTx i prev = prev\<lparr>txs := filter (\<lambda>t. tx_id t \<noteq> i) (txs prev)\<rparr>"

text \<open>
  The argument of \<^verbatim>\<open>upsertBudgetItem\<close> is a partial item: a field is \<open>None\<close> when the
  caller left it out.
\<close>

record BudgetItemPartial =
  p_id :: "string option"
  p_top :: "TopCategory option"
  p_name :: "string option"
  p_plan :: "int option"

fun findIndex :: "('a \<Rightarrow> bool) \<Rightarrow> 'a list \<Rightarrow> nat option" where
  "findIndex P [] = None"
| "findIndex P (x # xs) = (if P x then Some 0 else map_option Suc (findIndex P xs))"

text \<open>The object spread \<^verbatim>\<open>{ ...x, ...b }\<close>: the fields that \<open>b\<close> has replace those of \<open>x\<close>.\<close>

definition spreadOver :: "BudgetItem \<Rightarrow> BudgetItemPartial \<Rightarrow> BudgetItem" where
  "spreadOver x b =
     \<lparr>b_id = (case p_id b of None \<Rightarrow> b_id x | Some i \<Rightarrow> i),
      b_top = (case p_top b of None \<Rightarrow> b_top x | Some t \<Rightarrow> t),
      b_name = (case p_name b of None \<Rightarrow> b_name x | Some n \<Rightarrow> n),
      b_plan = (case p_plan b of None \<Rightarrow> b_plan x | Some p \<Rightarrow> p)\<rparr>"

text \<open>The placeholder name of a new item, as the UTF-8 bytes of its two Korean words.\<close>

definition newItemName :: string where
  "newItemName = [CHR 0xEC, CHR 0x83, CHR 0x88, CHR 0x20, CHR 0xED, CHR 0x95, CHR 0xAD,
                  CHR 0xEB, CHR 0xAA, CHR 0xA9]"

definition newItem :: "string \<Rightarrow> BudgetItemPartial \<Rightarrow> BudgetItem" where
  "newItem u b =
     \<lparr>b_id = u,
      b_top = (case p_top b of None \<Rightarrow> Spending | Some t \<Rightarrow> t),
      b_name = (case p_name b of None \<Rightarrow> newItemName
                | Some n \<Rightarrow> if n = [] then newItemName else n),
      b_plan = (case p_plan b of None \<Rightarrow> 0 | Some p \<Rightarrow> p)\<rparr>"

text \<open>
  The list that \<^verbatim>\<open>upsertBudgetItem\<close> stores for the selected month. The test
  \<^verbatim>\<open>if (b.id)\<close> holds for an identifier that is present and not the empty string.
\<close>

definition upsertList :: "string \<Rightarrow> BudgetItemPartial \<Rightarrow> BudgetItem list \<Rightarrow> BudgetItem list" where
  "upsertList u b list =
     (case p_id b of
        None \<Rightarrow> list @ [newItem u b]
      | Some i \<Rightarrow>
          if i = [] then list @ [newItem u b]
          else (case findIndex (\<lambda>x. b_id x = i) list of
                  None \<Rightarrow> list
                | Some k \<Rightarrow> list[k := spreadOver (list ! k) b]))"

definition upsertBudgetItem :: "string \<Rightarrow> string \<Rightarrow> BudgetItemPartial \<Rightarrow> AppState \<Rightarrow> AppState" where
  "upsertBudgetItem u month b prev =
     (let list = (case map_of (budgets prev) month of None \<Rightarrow> [] | Some l \<Rightarrow> l)
      in prev\<lparr>budgets := AList.update month (upsertList u b list) (budgets prev)\<rparr>)"

definition deleteBudgetItem :: "string \<Rightarrow> string \<Rightarrow> AppState \<Rightarrow> AppState" where
  "deleteBudgetItem month i prev =
     prev\<lparr>budgets :=
       AList.update month (filter (\<lambda>b. b_id b \<noteq> i) (monthBudgets (budgets prev) month))
         (budgets prev)\<rparr>"

subsection \<open>Copying the budget items into a new month\<close>

text \<open>\<^verbatim>\<open>xs.pop()\<close> read for its result: the last element, or \<^verbatim>\<open>undefined\<close>.\<close>

definition pop :: "'a list \<Rightarrow> 'a option" where
  "pop xs = (if xs = [] then None else Some (last xs))"

definition prevKeyOf :: "(string \<times> BudgetItem list) list \<Rightarrow> string \<Rightarrow> string option" where
  "prevKeyOf bs month = pop (filter (\<lambda>k. k < month) (sort (map fst bs)))"

definition copyItems :: "(nat \<Rightarrow> string) \<Rightarrow> BudgetItem list \<Rightarrow> BudgetItem list" where
  "copyItems uid src =
     map (\<lambda>(i, b). \<lparr>b_id = uid i, b_top = b_top b, b_name = b_name b, b_plan = b_plan b\<rparr>)
         (enumerate 0 src)"

text \<open>
  The effect that runs when the selected month changes. \<open>uid i\<close> is the identifier drawn
  for the \<open>i\<close>-th copied item. The test \<^verbatim>\<open>if (prevKey)\<close> fails for \<^verbatim>\<open>undefined\<close> and for
  the empty string.
\<close>

definition propagationEffect :: "(nat \<Rightarrow> string) \<Rightarrow> string \<Rightarrow> AppState \<Rightarrow> AppState" where
  "propagationEffect uid month s =
     (if map_of (budgets s) month = None \<or> map_of (budgets s) month = Some [] then
        (case prevKeyOf (budgets s) month of
           None \<Rightarrow> s
         | Some prevKey \<Rightarrow>
             if prevKey = [] then s
             else s\<lparr>budgets :=
                    AList.update month (copyItems uid (monthBudgets (budgets s) prevKey))
                      (budgets s)\<rparr>)
      else s)"

subsection \<open>Saving the start day\<close>




subsection \<open>The initial state\<close>

text \<open>
  \<^verbatim>\<open>loadState()\<close>: the stored state when local storage holds one that parses
  (\<open>Some\<close>), and otherwise a month with three sample spending items, named by the
  UTF-8 bytes of their Korean names.
\<close>

definition loadState :: "AppState option \<Rightarrow> string \<Rightarrow> (nat \<Rightarrow> string) \<Rightarrow> AppState" where
  "loadState stored initMonth uid =
     (case stored of
        Some s \<Rightarrow> s
      | None \<Rightarrow>
          \<lparr>budgets =
             [(initMonth,
               [\<lparr>b_id = uid 0, b_top = Spending,
                 b_name = [CHR 0xEC, CHR 0x8B, CHR 0x9D, CHR 0xEB, CHR 0xB9, CHR 0x84],
                 b_plan = 300000\<rparr>,
                \<lparr>b_id = uid 1, b_top = Spending,
                 b_name = [CHR 0xEC, CHR 0x83, CHR 0x9D, CHR 0xED, CHR 0x99, CHR 0x9C,
                           CHR 0xEB, CHR 0xB9, CHR 0x84],
                 b_plan = 300000\<rparr>,
                \<lparr>b_id = uid 2, b_top = Spending,
                 b_name = [CHR 0xEA, CHR 0xB3, CHR 0xB5, CHR 0xEA, CHR 0xB3, CHR 0xBC,
                           CHR 0xEA, CHR 0xB8, CHR 0x88],
                 b_plan = 100000\<rparr>])],
           txs = [],
           settings = \<lparr>startDay = 1, startDayTakesEffectNextMonth = True\<rparr>\<rparr>)"

subsection \<open>Sample data and an example state\<close>



subsection \<open>A comparison state\<close>


subsection \<open>The rate in exact arithmetic\<close>


section \<open>Properties of the period\<close>

lemma monthLength_bounds: "28 \<le> monthLength y m \<and> monthLength y m \<le> 31"
  by (simp add: monthLength_def)

lemma carryDay_inside: "1 \<le> d \<Longrightarrow> d \<le> monthLength y m \<Longrightarrow> carryDay y m d = (y, m, d)"
  by (subst carryDay.simps) simp

lemma carryDay_zero: "carryDay y m 0 = (if m = 0 then (y - 1, 11, 31) else (y, m - 1, monthLength y (m - 1)))"
proof -
  have a: "carryDay (y - 1) 11 31 = (y - 1, 11, 31)"
    by (rule carryDay_inside) (simp_all add: monthLength_def)
  have b: "carryDay y (m - 1) (monthLength y (m - 1)) = (y, m - 1, monthLength y (m - 1))"
    using monthLength_bounds[of y "m - 1"] by (intro carryDay_inside) simp_all
  have c: "monthLength (y - 1) 11 = 31" by (simp add: monthLength_def)
  show ?thesis
    by (subst carryDay.simps) (simp add: a b c)
qed

lemma carryDay_small: "1 \<le> d \<Longrightarrow> d \<le> 28 \<Longrightarrow> carryDay y m d = (y, m, d)"
  using monthLength_bounds[of y m] by (intro carryDay_inside) simp_all

lemma carryDay_over: 
  assumes "monthLength y m < d" "d \<le> 31"
  shows "carryDay y m d = (if m = 11 then (y + 1, 0, d - monthLength y m) else (y, m + 1, d - monthLength y m))"
proof -
  have d1: "1 \<le> d - monthLength y m" "d - monthLength y m \<le> 28" "\<not> d < 1"
    using assms monthLength_bounds[of y m] by simp_all
  show ?thesis
    using d1 assms by (subst carryDay.simps) (auto simp: carryDay_small)
qed

lemma monthLength_11: "monthLength y 11 = 31"
  by (simp add: monthLength_def)

lemma daysInMonth_eq:
  "1 \<le> m \<Longrightarrow> m \<le> 12 \<Longrightarrow>
   daysInMonth y m = monthLength (if 0 \<le> y \<and> y \<le> 99 then 1900 + y else y) (m - 1)"
  by (cases "m = 12")
     (simp_all add: daysInMonth_def newDate_def MakeDay_def carryDay_zero Let_def monthLength_11)

lemma start_fields:
  assumes "1 \<le> m" "m \<le> 12" "1 \<le> d"
  shows "period_start (startEndOfMonthYM y m d) =
     \<lparr>getFullYear = (if 0 \<le> y \<and> y \<le> 99 then 1900 + y else y), getMonth = m - 1,
      getDate = min d (daysInMonth y m), timeOfDay = 0\<rparr>"
proof -
  let ?yr = "if 0 \<le> y \<and> y \<le> 99 then 1900 + y else y"
  have dm: "daysInMonth y m = monthLength ?yr (m - 1)"
    using assms by (simp add: daysInMonth_eq)
  have mm: "(m - 1) div 12 = 0" "(m - 1) mod 12 = m - 1"
    using assms by simp_all
  have "carryDay ?yr (m - 1) (min d (daysInMonth y m)) = (?yr, m - 1, min d (daysInMonth y m))"
    using assms monthLength_bounds[of ?yr "m - 1"] unfolding dm
    by (intro carryDay_inside) simp_all
  then show ?thesis
    using mm by (simp add: startEndOfMonthYM_def Let_def newDate_def MakeDay_def daysInMonth_def)
qed


lemma setMonth_next:
  assumes "1 \<le> m" "m \<le> 12" "1 \<le> sd" "sd \<le> monthLength yr (m - 1)"
  shows "setMonth \<lparr>getFullYear = yr, getMonth = m - 1, getDate = sd, timeOfDay = 0\<rparr> (m - 1 + 1) =
     (if m = 12 then \<lparr>getFullYear = yr + 1, getMonth = 0, getDate = sd, timeOfDay = 0\<rparr>
      else if sd \<le> monthLength yr m then \<lparr>getFullYear = yr, getMonth = m, getDate = sd, timeOfDay = 0\<rparr>
      else \<lparr>getFullYear = yr, getMonth = m + 1, getDate = sd - monthLength yr m, timeOfDay = 0\<rparr>)"
proof (cases "m = 12")
  case True
  have "sd \<le> 31" using assms(4) monthLength_bounds[of yr "m - 1"] by simp
  then have "carryDay (yr + 1) 0 sd = (yr + 1, 0, sd)"
    using assms(3) by (intro carryDay_inside) (simp_all add: monthLength_def)
  then show ?thesis using True by (simp add: setMonth_def MakeDay_def)
next
  case False
  then have mm: "m div 12 = 0" "m mod 12 = m" using assms by simp_all
  have le31: "sd \<le> 31" using assms(4) monthLength_bounds[of yr "m - 1"] by simp
  show ?thesis
  proof (cases "sd \<le> monthLength yr m")
    case True
    then have "carryDay yr m sd = (yr, m, sd)" using assms(3) by (intro carryDay_inside)
    then show ?thesis using \<open>m \<noteq> 12\<close> True mm by (simp add: setMonth_def MakeDay_def)
  next
    case False
    then have lt: "monthLength yr m < sd" by simp
    have "m \<noteq> 11" using lt le31 by (auto simp: monthLength_11)
    then have "carryDay yr m sd = (yr, m + 1, sd - monthLength yr m)"
      using carryDay_over[OF lt le31] by simp
    then show ?thesis using \<open>m \<noteq> 12\<close> False mm by (simp add: setMonth_def MakeDay_def)
  qed
qed

lemma setDate_prev:
  assumes "0 \<le> k" "k \<le> 11" "1 \<le> e" "e \<le> monthLength yy k"
  shows "setDate \<lparr>getFullYear = yy, getMonth = k, getDate = e, timeOfDay = 0\<rparr> (e - 1) =
     (if 2 \<le> e then \<lparr>getFullYear = yy, getMonth = k, getDate = e - 1, timeOfDay = 0\<rparr>
      else if k = 0 then \<lparr>getFullYear = yy - 1, getMonth = 11, getDate = 31, timeOfDay = 0\<rparr>
      else \<lparr>getFullYear = yy, getMonth = k - 1, getDate = monthLength yy (k - 1), timeOfDay = 0\<rparr>)"
proof -
  have mm: "k div 12 = 0" "k mod 12 = k" using assms by simp_all
  show ?thesis
  proof (cases "2 \<le> e")
    case True
    then have "carryDay yy k (e - 1) = (yy, k, e - 1)"
      using assms(4) by (intro carryDay_inside) simp_all
    then show ?thesis using True mm by (simp add: setDate_def MakeDay_def)
  next
    case False
    then have "e = 1" using assms(3) by simp
    then show ?thesis using mm by (simp add: setDate_def MakeDay_def carryDay_zero)
  qed
qed



lemma startEndOfMonthYM_unfold:
  "startEndOfMonthYM y m d =
     (let S = period_start (startEndOfMonthYM y m d); E1 = setMonth S (getMonth S + 1)
      in \<lparr>period_start = S, period_end = setHours (setDate E1 (getDate E1 - 1)) 23 59 59 999\<rparr>)"
  by (simp add: startEndOfMonthYM_def Let_def)

lemma carryDay_next:
  "carryDay y m (monthLength y m + 1) = (if m = 11 then (y + 1, 0, 1) else (y, m + 1, 1))"
  using monthLength_bounds[of y m]
  by (subst carryDay.simps) (simp add: carryDay_small)

text \<open>
  For a start day from 1 to 28 and a year from 100 on, the day after the end of a
  month's period is the first day of the period of the following month, December
  being followed by January of the next year.
\<close>

lemma period_continuity_upto_day_28:
  assumes m: "1 \<le> m" "m \<le> 12" and d: "1 \<le> d" "d \<le> 28" and y: "100 \<le> y"
  defines "E \<equiv> period_end (startEndOfMonthYM y m d)"
    and "S' \<equiv> period_start (startEndOfMonthYM (if m = 12 then y + 1 else y)
                                 (if m = 12 then 1 else m + 1) d)"
  shows "MakeDay (getFullYear E) (getMonth E) (getDate E + 1)
       = (getFullYear S', getMonth S', getDate S')"
proof -
  define yy where "yy = (if m = 12 then y + 1 else y)"
  define k where "k = (if m = 12 then 0 else m)"
  have k: "0 \<le> k" "k \<le> 11" using m by (simp_all add: k_def)
  have kk: "k div 12 = 0" "k mod 12 = k" using k by simp_all
  have dm: "min d (daysInMonth y' m') = d" if "1 \<le> m'" "m' \<le> 12" for y' m'
    using that d monthLength_bounds[of "if 0 \<le> y' \<and> y' \<le> 99 then 1900 + y' else y'" "m' - 1"]
    by (simp add: daysInMonth_eq)
  have S: "period_start (startEndOfMonthYM y m d)
      = \<lparr>getFullYear = y, getMonth = m - 1, getDate = d, timeOfDay = 0\<rparr>"
    using start_fields[OF m d(1), of y] y dm[OF m, of y] by simp
  have S': "S' = \<lparr>getFullYear = yy, getMonth = k, getDate = d, timeOfDay = 0\<rparr>"
  proof -
    have r: "1 \<le> k + 1" "k + 1 \<le> 12" using k by simp_all
    have "100 \<le> yy" using y by (simp add: yy_def)
    then show ?thesis
      using start_fields[OF r d(1), of yy] dm[OF r, of yy]
      by (cases "m = 12") (simp_all add: S'_def yy_def k_def)
  qed
  have fit: "d \<le> monthLength y (m - 1)" "d \<le> monthLength y m" "d \<le> monthLength yy k"
    using d monthLength_bounds[of y "m - 1"] monthLength_bounds[of y m] monthLength_bounds[of yy k]
    by simp_all
  have E1: "setMonth \<lparr>getFullYear = y, getMonth = m - 1, getDate = d, timeOfDay = 0\<rparr> m
      = \<lparr>getFullYear = yy, getMonth = k, getDate = d, timeOfDay = 0\<rparr>"
    using setMonth_next[OF m d(1) fit(1)] fit(2) by (simp add: yy_def k_def)
  have E: "E = setHours (setDate \<lparr>getFullYear = yy, getMonth = k, getDate = d, timeOfDay = 0\<rparr> (d - 1))
               23 59 59 999"
    unfolding E_def by (subst startEndOfMonthYM_unfold) (simp add: S Let_def E1)
  note prev = setDate_prev[OF k d(1) fit(3)]
  show ?thesis
  proof (cases "2 \<le> d")
    case True
    have "carryDay yy k d = (yy, k, d)" using d by (intro carryDay_small) simp_all
    then show ?thesis
      using True prev kk by (simp add: E S' setHours_def MakeDay_def)
  next
    case False
    then have d1: "d = 1" using d by simp
    show ?thesis
    proof (cases "k = 0")
      case True
      have "monthLength (yy - 1) 11 + 1 = 32" by (simp add: monthLength_11)
      with carryDay_next[of "yy - 1" 11] have "carryDay (yy - 1) 11 32 = (yy, 0, 1)" by simp
      then show ?thesis
        using True d1 prev by (simp add: E S' setHours_def MakeDay_def)
    next
      case False
      then have k1: "(k - 1) div 12 = 0" "(k - 1) mod 12 = k - 1" "k - 1 \<noteq> 11"
        using k by simp_all
      have "carryDay yy (k - 1) (monthLength yy (k - 1) + 1) = (yy, k, 1)"
        using carryDay_next[of yy "k - 1"] k1 by simp
      then show ?thesis
        using False d1 prev k1 by (simp add: E S' setHours_def MakeDay_def)
    qed
  qed
qed



text \<open>
  C1 (period continuity) at the month key 2025-01 with start day 31. The period of
  January ends on 2 March 2025: \<^verbatim>\<open>setMonth\<close> moves 31 January to the 31st day counted
  from 1 February, which is 3 March. The period of February begins on 28 February
  2025, so the end of January's period is not the day before it but lies after it.
\<close>

theorem startEndOfMonth_overlap_at_day_31:
  "period_end (startEndOfMonthYM 2025 1 31) =
     \<lparr>getFullYear = 2025, getMonth = 2, getDate = 2, timeOfDay = 86399999\<rparr>
   \<and> period_start (startEndOfMonthYM 2025 2 31) =
     \<lparr>getFullYear = 2025, getMonth = 1, getDate = 28, timeOfDay = 0\<rparr>
   \<and> \<not> dateLe (period_end (startEndOfMonthYM 2025 1 31))
            (period_start (startEndOfMonthYM 2025 2 31))"
  by code_simp


section \<open>Properties of the state operations\<close>

lemma monthBudgets_update:
  "monthBudgets (AList.update month v bs) k = (if k = month then v else monthBudgets bs k)"
  by (simp add: monthBudgets_def AList.update_conv')

lemma guard_monthBudgets:
  "(map_of bs month = None \<or> map_of bs month = Some []) \<longleftrightarrow> monthBudgets bs month = []"
  by (auto simp: monthBudgets_def split: option.splits)


lemma sorted_le_last: "sorted xs \<Longrightarrow> x \<in> set xs \<Longrightarrow> x \<le> last xs"
  by (induction xs) auto

lemma prevKeyOf_Some:
  assumes "prevKeyOf bs month = Some p"
  shows "p \<in> fst ` set bs" "p < month" "\<forall>k \<in> fst ` set bs. k < month \<longrightarrow> k \<le> p"
proof -
  let ?xs = "filter (\<lambda>k. k < month) (sort (map fst bs))"
  from assms have ne: "?xs \<noteq> []" and p: "p = last ?xs"
    by (auto simp: prevKeyOf_def pop_def split: if_splits)
  have "p \<in> set ?xs" unfolding p using ne by (rule last_in_set)
  then show "p \<in> fst ` set bs" "p < month" by auto
  have srt: "sorted ?xs" using sorted_filter[of "\<lambda>x. x" "sort (map fst bs)"] by simp
  show "\<forall>k \<in> fst ` set bs. k < month \<longrightarrow> k \<le> p"
  proof (intro ballI impI)
    fix k assume "k \<in> fst ` set bs" "k < month"
    then have "k \<in> set ?xs" by auto
    with srt show "k \<le> p" unfolding p by (rule sorted_le_last)
  qed
qed

lemma prevKeyOf_update_same:
  "prevKeyOf (AList.update month v bs) month = prevKeyOf bs month"
  by (simp add: prevKeyOf_def AList.update_keys filter_sort)

lemma copyItems_Nil: "copyItems uid [] = []"
  by (simp add: copyItems_def)

lemma copyItems_eq_Nil: "copyItems uid src = [] \<longleftrightarrow> src = []"
  by (cases src) (simp_all add: copyItems_def)

lemma propagationEffect_again:
  "propagationEffect uid' month (propagationEffect uid month s) = propagationEffect uid month s"
proof (cases "monthBudgets (budgets s) month = []")
  case False
  then show ?thesis by (simp add: propagationEffect_def guard_monthBudgets)
next
  case empty: True
  show ?thesis
  proof (cases "prevKeyOf (budgets s) month")
    case None
    then show ?thesis by (simp add: propagationEffect_def)
  next
    case (Some p)
    show ?thesis
    proof (cases "p = []")
      case True
      with Some show ?thesis by (simp add: propagationEffect_def)
    next
      case False
      have pm: "p \<noteq> month" using prevKeyOf_Some(2)[OF Some] by auto
      let ?src = "monthBudgets (budgets s) p"
      have first: "propagationEffect uid month s =
          s\<lparr>budgets := AList.update month (copyItems uid ?src) (budgets s)\<rparr>"
        using empty Some False by (simp add: propagationEffect_def guard_monthBudgets)
      show ?thesis
      proof (cases "?src = []")
        case True
        then show ?thesis
          using Some False pm unfolding first
          by (simp add: propagationEffect_def guard_monthBudgets monthBudgets_update
              prevKeyOf_update_same copyItems_Nil)
      next
        case False
        then show ?thesis
          unfolding first
          by (simp add: propagationEffect_def guard_monthBudgets monthBudgets_update
              copyItems_eq_Nil)
      qed
    qed
  qed
qed



text \<open>
  C4 (propagation idempotence). Running the month-change effect a second time for the
  same month, with whatever identifiers are drawn, leaves the state produced by the
  first run unchanged, so the month shows the same items; and once a month has items
  the effect does nothing at all.
\<close>

theorem propagation_idempotent:
  "propagationEffect uid' month (propagationEffect uid month s) = propagationEffect uid month s
   \<and> monthBudgets (budgets (propagationEffect uid' month (propagationEffect uid month s))) month
       = monthBudgets (budgets (propagationEffect uid month s)) month
   \<and> (monthBudgets (budgets s) month \<noteq> [] \<longrightarrow> propagationEffect uid month s = s)"
  by (simp add: propagationEffect_again) (simp add: propagationEffect_def guard_monthBudgets)

theorem propagation_idempotent_witness:
  "monthBudgets (budgets (loadState None ''2025-03'' (\<lambda>i. replicate (Suc i) CHR ''u''))) ''2025-03'' \<noteq> []
   \<and> propagationEffect (\<lambda>i. replicate (Suc i) CHR ''v'') ''2025-03''
        (loadState None ''2025-03'' (\<lambda>i. replicate (Suc i) CHR ''u''))
       = loadState None ''2025-03'' (\<lambda>i. replicate (Suc i) CHR ''u'')
   \<and> map b_id (monthBudgets (budgets (propagationEffect (\<lambda>i. replicate (Suc i) CHR ''w'') ''2025-04''
        (propagationEffect (\<lambda>i. replicate (Suc i) CHR ''v'') ''2025-04''
          (loadState None ''2025-03'' (\<lambda>i. replicate (Suc i) CHR ''u''))))) ''2025-04'')
       = [''v'', ''vv'', ''vvv'']"
proof -
  let ?s = "loadState None ''2025-03'' (\<lambda>i. replicate (Suc i) CHR ''u'')"
  let ?v = "\<lambda>i. replicate (Suc i) CHR ''v''"
  have ne: "monthBudgets (budgets ?s) ''2025-03'' \<noteq> []"
    by (simp add: loadState_def monthBudgets_def)
  have ids: "map b_id (monthBudgets (budgets (propagationEffect ?v ''2025-04'' ?s)) ''2025-04'')
       = [''v'', ''vv'', ''vvv'']"
    by code_simp
  show ?thesis
    using propagation_idempotent[of "\<lambda>i. replicate (Suc i) CHR ''w''" "''2025-04''" ?v ?s]
      propagation_idempotent[of ?v "''2025-03''" ?v ?s] ne ids
    by simp
qed





text \<open>
  C10 (frame). \<open>upsertBudgetItem\<close> and \<open>deleteBudgetItem\<close> leave the list of every
  month key other than the selected one, the transactions and the settings as they
  were; \<open>addTx\<close> and \<open>removeTx\<close> leave the budgets and the settings as they were.
\<close>

theorem operations_frame:
  assumes "k \<noteq> month"
  shows "map_of (budgets (upsertBudgetItem u month b s)) k = map_of (budgets s) k
       \<and> txs (upsertBudgetItem u month b s) = txs s
       \<and> settings (upsertBudgetItem u month b s) = settings s
       \<and> map_of (budgets (deleteBudgetItem month i s)) k = map_of (budgets s) k
       \<and> txs (deleteBudgetItem month i s) = txs s
       \<and> settings (deleteBudgetItem month i s) = settings s
       \<and> budgets (addTx u tx s) = budgets s \<and> settings (addTx u tx s) = settings s
       \<and> budgets (removeTx i s) = budgets s \<and> settings (removeTx i s) = settings s"
  using assms
  by (simp add: upsertBudgetItem_def deleteBudgetItem_def addTx_def removeTx_def
      AList.update_conv' Let_def)

theorem operations_frame_witness:
  "''2025-03'' \<noteq> ''2025-04''
   \<and> map_of (budgets (upsertBudgetItem ''n'' ''2025-04''
          \<lparr>p_id = None, p_top = None, p_name = Some ''rent'', p_plan = Some 500\<rparr>
          (loadState None ''2025-03'' (\<lambda>i. replicate (Suc i) CHR ''u'')))) ''2025-03''
       = map_of (budgets (loadState None ''2025-03'' (\<lambda>i. replicate (Suc i) CHR ''u''))) ''2025-03''
   \<and> map_of (budgets (deleteBudgetItem ''2025-04'' ''u''
          (loadState None ''2025-03'' (\<lambda>i. replicate (Suc i) CHR ''u'')))) ''2025-03''
       = map_of (budgets (loadState None ''2025-03'' (\<lambda>i. replicate (Suc i) CHR ''u''))) ''2025-03''
   \<and> length (monthBudgets (budgets (upsertBudgetItem ''n'' ''2025-04''
          \<lparr>p_id = None, p_top = None, p_name = Some ''rent'', p_plan = Some 500\<rparr>
          (loadState None ''2025-03'' (\<lambda>i. replicate (Suc i) CHR ''u'')))) ''2025-04'') = 1"
proof -
  let ?s = "loadState None ''2025-03'' (\<lambda>i. replicate (Suc i) CHR ''u'')"
  have ne: "''2025-03'' \<noteq> ''2025-04''" by simp
  have len: "length (monthBudgets (budgets (upsertBudgetItem ''n'' ''2025-04''
          \<lparr>p_id = None, p_top = None, p_name = Some ''rent'', p_plan = Some 500\<rparr> ?s)) ''2025-04'') = 1"
    by code_simp
  show ?thesis
    using operations_frame[OF ne, of "''n''" "\<lparr>p_id = None, p_top = None, p_name = Some ''rent'', p_plan = Some 500\<rparr>" ?s "''u''"]
      len
    by simp
qed

lemma findIndex_None: "findIndex P xs = None \<longleftrightarrow> (\<forall>x \<in> set xs. \<not> P x)"
  by (induction xs) auto

lemma findIndex_Some:
  "findIndex P xs = Some k \<Longrightarrow> k < length xs \<and> P (xs ! k) \<and> (\<forall>j<k. \<not> P (xs ! j))"
proof (induction xs arbitrary: k)
  case Nil
  then show ?case by simp
next
  case (Cons x xs)
  show ?case
  proof (cases "P x")
    case True
    with Cons.prems show ?thesis by simp
  next
    case False
    with Cons.prems obtain k' where k': "findIndex P xs = Some k'" "k = Suc k'"
      by auto
    from Cons.IH[OF k'(1)] False k'(2) show ?thesis
      by (auto simp: less_Suc_eq_0_disj)
  qed
qed

lemma monthBudgets_upsert:
  "monthBudgets (budgets (upsertBudgetItem u month b s)) month
     = upsertList u b (monthBudgets (budgets s) month)"
  by (simp add: upsertBudgetItem_def monthBudgets_update Let_def) (simp add: monthBudgets_def)

text \<open>
  C7 (upsert), as the code has it. The list stored for the selected month is
  \<open>upsertList\<close> of the month's current list. When the given identifier is present,
  non-empty and carried by an item of the list, the first such item is replaced in
  place by itself overwritten with the fields the argument has; the identifier stays
  and the length is unchanged. When the identifier is present and non-empty but no item
  carries it, the list is unchanged. When the identifier is absent or empty, one item
  is appended: it has the drawn identifier, the given top category or Spending, the
  given name or the placeholder, the given plan or 0.
\<close>

theorem upsert_semantics:
  "monthBudgets (budgets (upsertBudgetItem u month b s)) month
     = upsertList u b (monthBudgets (budgets s) month)
   \<and> (p_id b = Some i \<and> i \<noteq> [] \<and> i \<in> b_id ` set list \<longrightarrow>
        (\<exists>k<length list.
            b_id (list ! k) = i \<and> (\<forall>j<k. b_id (list ! j) \<noteq> i)
            \<and> upsertList u b list = list[k := spreadOver (list ! k) b]
            \<and> b_id (spreadOver (list ! k) b) = i
            \<and> b_name (spreadOver (list ! k) b) = (case p_name b of None \<Rightarrow> b_name (list ! k) | Some n \<Rightarrow> n)
            \<and> b_plan (spreadOver (list ! k) b) = (case p_plan b of None \<Rightarrow> b_plan (list ! k) | Some p \<Rightarrow> p)
            \<and> b_top (spreadOver (list ! k) b) = (case p_top b of None \<Rightarrow> b_top (list ! k) | Some t \<Rightarrow> t))
        \<and> length (upsertList u b list) = length list)
   \<and> (p_id b = Some i \<and> i \<noteq> [] \<and> i \<notin> b_id ` set list \<longrightarrow> upsertList u b list = list)
   \<and> (p_id b = None \<or> p_id b = Some [] \<longrightarrow>
        upsertList u b list = list @
          [\<lparr>b_id = u,
            b_top = (case p_top b of None \<Rightarrow> Spending | Some t \<Rightarrow> t),
            b_name = (if p_name b = None \<or> p_name b = Some [] then newItemName else the (p_name b)),
            b_plan = (case p_plan b of None \<Rightarrow> 0 | Some p \<Rightarrow> p)\<rparr>])"
proof (intro conjI impI)
  show "monthBudgets (budgets (upsertBudgetItem u month b s)) month
     = upsertList u b (monthBudgets (budgets s) month)"
    by (rule monthBudgets_upsert)
next
  assume a: "p_id b = Some i \<and> i \<noteq> [] \<and> i \<in> b_id ` set list"
  then have "findIndex (\<lambda>x. b_id x = i) list \<noteq> None"
    by (auto simp: findIndex_None)
  then obtain k where k: "findIndex (\<lambda>x. b_id x = i) list = Some k" by auto
  note f = findIndex_Some[OF k]
  have up: "upsertList u b list = list[k := spreadOver (list ! k) b]"
    using a k by (simp add: upsertList_def)
  show "\<exists>k<length list.
            b_id (list ! k) = i \<and> (\<forall>j<k. b_id (list ! j) \<noteq> i)
            \<and> upsertList u b list = list[k := spreadOver (list ! k) b]
            \<and> b_id (spreadOver (list ! k) b) = i
            \<and> b_name (spreadOver (list ! k) b) = (case p_name b of None \<Rightarrow> b_name (list ! k) | Some n \<Rightarrow> n)
            \<and> b_plan (spreadOver (list ! k) b) = (case p_plan b of None \<Rightarrow> b_plan (list ! k) | Some p \<Rightarrow> p)
            \<and> b_top (spreadOver (list ! k) b) = (case p_top b of None \<Rightarrow> b_top (list ! k) | Some t \<Rightarrow> t)"
    using f up a by (intro exI[of _ k]) (simp add: spreadOver_def)
  show "length (upsertList u b list) = length list"
    by (simp add: up)
next
  assume a: "p_id b = Some i \<and> i \<noteq> [] \<and> i \<notin> b_id ` set list"
  then have "findIndex (\<lambda>x. b_id x = i) list = None"
    by (auto simp: findIndex_None)
  with a show "upsertList u b list = list"
    by (simp add: upsertList_def)
next
  assume "p_id b = None \<or> p_id b = Some []"
  then show "upsertList u b list = list @
          [\<lparr>b_id = u,
            b_top = (case p_top b of None \<Rightarrow> Spending | Some t \<Rightarrow> t),
            b_name = (if p_name b = None \<or> p_name b = Some [] then newItemName else the (p_name b)),
            b_plan = (case p_plan b of None \<Rightarrow> 0 | Some p \<Rightarrow> p)\<rparr>]"
    by (auto simp: upsertList_def newItem_def split: option.splits)
qed


theorem upsert_semantics_witness:
  "upsertList ''n'' \<lparr>p_id = Some ''uu'', p_top = None, p_name = None, p_plan = Some 7\<rparr>
      (monthBudgets (budgets (loadState None ''2025-03'' (\<lambda>i. replicate (Suc i) CHR ''u''))) ''2025-03'')
    = (monthBudgets (budgets (loadState None ''2025-03'' (\<lambda>i. replicate (Suc i) CHR ''u''))) ''2025-03'')
        [1 := \<lparr>b_id = ''uu'', b_top = Spending,
                b_name = [CHR 0xEC, CHR 0x83, CHR 0x9D, CHR 0xED, CHR 0x99, CHR 0x9C,
                          CHR 0xEB, CHR 0xB9, CHR 0x84],
                b_plan = 7\<rparr>]
   \<and> length (upsertList ''n'' \<lparr>p_id = Some ''uu'', p_top = None, p_name = None, p_plan = Some 7\<rparr>
      (monthBudgets (budgets (loadState None ''2025-03'' (\<lambda>i. replicate (Suc i) CHR ''u''))) ''2025-03'')) = 3
   \<and> upsertList ''n'' \<lparr>p_id = Some ''zz'', p_top = None, p_name = Some ''x'', p_plan = None\<rparr>
      (monthBudgets (budgets (loadState None ''2025-03'' (\<lambda>i. replicate (Suc i) CHR ''u''))) ''2025-03'')
    = monthBudgets (budgets (loadState None ''2025-03'' (\<lambda>i. replicate (Suc i) CHR ''u''))) ''2025-03''
   \<and> upsertList ''n'' \<lparr>p_id = None, p_top = None, p_name = None, p_plan = None\<rparr> []
    = [\<lparr>b_id = ''n'', b_top = Spending, b_name = newItemName, b_plan = 0\<rparr>]"
proof -
  let ?l = "monthBudgets (budgets (loadState None ''2025-03'' (\<lambda>i. replicate (Suc i) CHR ''u''))) ''2025-03''"
  have l: "?l = [\<lparr>b_id = ''u'', b_top = Spending,
                 b_name = [CHR 0xEC, CHR 0x8B, CHR 0x9D, CHR 0xEB, CHR 0xB9, CHR 0x84],
                 b_plan = 300000\<rparr>,
                \<lparr>b_id = ''uu'', b_top = Spending,
                 b_name = [CHR 0xEC, CHR 0x83, CHR 0x9D, CHR 0xED, CHR 0x99, CHR 0x9C,
                           CHR 0xEB, CHR 0xB9, CHR 0x84],
                 b_plan = 300000\<rparr>,
                \<lparr>b_id = ''uuu'', b_top = Spending,
                 b_name = [CHR 0xEA, CHR 0xB3, CHR 0xB5, CHR 0xEA, CHR 0xB3, CHR 0xBC,
                           CHR 0xEA, CHR 0xB8, CHR 0x88],
                 b_plan = 100000\<rparr>]"
    by code_simp
  have e1: "upsertList ''n'' \<lparr>p_id = Some ''uu'', p_top = None, p_name = None, p_plan = Some 7\<rparr> ?l
    = ?l[1 := \<lparr>b_id = ''uu'', b_top = Spending,
                b_name = [CHR 0xEC, CHR 0x83, CHR 0x9D, CHR 0xED, CHR 0x99, CHR 0x9C,
                          CHR 0xEB, CHR 0xB9, CHR 0x84],
                b_plan = 7\<rparr>]"
    unfolding l by (simp add: upsertList_def spreadOver_def)
  from upsert_semantics[of "''n''" "''2025-03''"
      "\<lparr>p_id = Some ''uu'', p_top = None, p_name = None, p_plan = Some 7\<rparr>"
      "loadState None ''2025-03'' (\<lambda>i. replicate (Suc i) CHR ''u'')" "''uu''" ?l]
  have a: "length (upsertList ''n'' \<lparr>p_id = Some ''uu'', p_top = None, p_name = None, p_plan = Some 7\<rparr> ?l) = 3"
    unfolding l by simp
  from upsert_semantics[of "''n''" "''2025-03''"
      "\<lparr>p_id = Some ''zz'', p_top = None, p_name = Some ''x'', p_plan = None\<rparr>"
      "loadState None ''2025-03'' (\<lambda>i. replicate (Suc i) CHR ''u'')" "''zz''" ?l]
  have b: "upsertList ''n'' \<lparr>p_id = Some ''zz'', p_top = None, p_name = Some ''x'', p_plan = None\<rparr> ?l = ?l"
    unfolding l by simp
  from upsert_semantics[of "''n''" "''2025-03''"
      "\<lparr>p_id = None, p_top = None, p_name = None, p_plan = None\<rparr>"
      "loadState None ''2025-03'' (\<lambda>i. replicate (Suc i) CHR ''u'')" "''zz''" "[]"]
  have c: "upsertList ''n'' \<lparr>p_id = None, p_top = None, p_name = None, p_plan = None\<rparr> []
    = [\<lparr>b_id = ''n'', b_top = Spending, b_name = newItemName, b_plan = 0\<rparr>]"
    by simp
  show ?thesis using e1 a b c by simp
qed

text \<open>
  C7 as stated fails for an identifier that no item carries: nothing is appended.
\<close>

theorem upsert_unknown_id_appends_nothing:
  "p_id \<lparr>p_id = Some ''zz'', p_top = None, p_name = Some ''x'', p_plan = None\<rparr> = Some ''zz''
   \<and> ''zz'' \<notin> b_id ` set (monthBudgets (budgets (loadState None ''2025-03'' (\<lambda>i. replicate (Suc i) CHR ''u''))) ''2025-03'')
   \<and> monthBudgets (budgets (upsertBudgetItem ''n'' ''2025-03''
        \<lparr>p_id = Some ''zz'', p_top = None, p_name = Some ''x'', p_plan = None\<rparr>
        (loadState None ''2025-03'' (\<lambda>i. replicate (Suc i) CHR ''u'')))) ''2025-03''
     = monthBudgets (budgets (loadState None ''2025-03'' (\<lambda>i. replicate (Suc i) CHR ''u''))) ''2025-03''"
  by code_simp




section \<open>Properties of the report\<close>








































end
